theory Spec2Isabelle
  imports Complex_Main "HOL-Library.Word"
begin

unbundle bit_operations_syntax

section \<open>JavaScript values and fabric objects\<close>

text \<open>
  The client is the React component \<open>Whiteboard\<close> (the version with the socket). It keeps a
  fabric canvas, whose object list is the local scene store, and a socket.io connection to
  the relay. A property value is a string, a number or a boolean; an absent property
  (\<open>undefined\<close>) is \<open>None\<close>. Numbers are modelled as reals.
\<close>

datatype jsval = Str string | Num real | Bool bool

type_synonym bag = "string \<rightharpoonup> jsval"

text \<open>JavaScript truthiness, as used by \<open>!e.target.id\<close> and \<open>obj.__skipEmit\<close>.\<close>

definition truthy :: "jsval option \<Rightarrow> bool" where
  "truthy v = (case v of
       None \<Rightarrow> False
     | Some (Str s) \<Rightarrow> s \<noteq> []
     | Some (Num n) \<Rightarrow> n \<noteq> 0
     | Some (Bool b) \<Rightarrow> b)"

text \<open>
  A fabric object: its properties (\<open>id\<close>, \<open>__skipEmit\<close>, \<open>left\<close>, \<open>width\<close>, ...) and whether
  its \<open>canvas\<close> back-reference is set. Objects are mutable and shared between the canvas
  and the handlers' variables, so they live in a heap and are named by references.
\<close>

record fobj =
  props :: bag
  on_canvas :: bool

type_synonym ref = nat

datatype tool = Draw | Select | Rectangle | Line | Ellipse | Clear

subsection \<open>Identity generation\<close>

text \<open>
  \<open>generateId\<close> returns \<open>uuidv4()\<close>. The uuid package draws 16 random bytes, fixes the
  version and variant bits, and prints the bytes in hexadecimal, grouped 8-4-4-4-12.
\<close>

definition hexDigit :: "nat \<Rightarrow> char" where
  "hexDigit n = ''0123456789abcdef'' ! (n mod 16)"

definition byteToHex :: "8 word \<Rightarrow> string" where
  "byteToHex b = [hexDigit (unat b div 16), hexDigit (unat b mod 16)]"

definition uuidv4 :: "(nat \<Rightarrow> 8 word) \<Rightarrow> string" where
  "uuidv4 rnds =
     (let r = rnds(6 := (rnds 6 AND 0x0f) OR 0x40, 8 := (rnds 8 AND 0x3f) OR 0x80);
          h = (\<lambda>i. byteToHex (r i))
      in h 0 @ h 1 @ h 2 @ h 3 @ ''-'' @ h 4 @ h 5 @ ''-'' @ h 6 @ h 7 @ ''-''
         @ h 8 @ h 9 @ ''-'' @ h 10 @ h 11 @ h 12 @ h 13 @ h 14 @ h 15)"

section \<open>The client state\<close>

text \<open>
  \<open>registry\<close> is fabric's class registry (the type names \<open>enlivenObjects\<close> can instantiate),
  \<open>objects\<close> is \<open>canvas.getObjects()\<close>, \<open>emitted\<close> logs every \<open>socket.emit\<close> in order,
  \<open>rng\<close> is the random source of the uuid package (\<open>rng st k i\<close> is byte \<open>i\<close> of its
  \<open>k\<close>-th draw). \<open>computed\<close> stands for what fabric's property setters compute (see
  \<open>fabric_set\<close> below). The listener fields hold the event names with a registered
  listener.
  \<open>startX\<close>, \<open>startY\<close> and \<open>shape\<close> are the variables of the tool effect;
  \<open>tool_cleanup\<close> is the cleanup function React holds for that effect, which is
  determined by the tool it captured (\<open>None\<close>: the effect returned nothing).
\<close>

record client =
  registry :: "string list"
  computed :: "bag \<Rightarrow> bag \<Rightarrow> string \<Rightarrow> jsval option"
  heap :: "ref \<Rightarrow> fobj"
  objects :: "ref list"
  activeObject :: "ref option"
  backgroundColor :: string
  disposed :: bool
  emitted :: "(string \<times> bag) list"
  rng :: "nat \<Rightarrow> nat \<Rightarrow> 8 word"
  rng_calls :: nat
  canvasEl :: bool
  isInitialized :: bool
  fabricCanvasRef :: bool
  socketRef :: bool
  connected :: bool
  socket_listeners :: "string list"
  window_listeners :: "string list"
  mouse_listeners :: "string list"
  tool :: tool
  brushColor :: string
  brushSize :: real
  startX :: real
  startY :: real
  shape :: "ref option"
  isDrawingMode :: bool
  selection :: bool
  tool_cleanup :: "tool option"

definition generateId :: "client \<Rightarrow> string \<times> client" where
  "generateId st = (uuidv4 (rng st (rng_calls st)), st\<lparr>rng_calls := Suc (rng_calls st)\<rparr>)"

subsection \<open>Object access\<close>

definition obj_get :: "client \<Rightarrow> ref \<Rightarrow> string \<Rightarrow> jsval option" where
  "obj_get st r k = props (heap st r) k"

text \<open>
  Plain assignments to properties, as in \<open>obj.__skipEmit = true\<close>, \<open>e.target.id = ...\<close>
  and \<open>obj.selectable = false\<close>: the keys given are stored, the other keys are kept.
\<close>

definition obj_set :: "ref \<Rightarrow> bag \<Rightarrow> client \<Rightarrow> client" where
  "obj_set r kv st =
     st\<lparr>heap := (heap st)(r := (heap st r)\<lparr>props := props (heap st r) ++ kv\<rparr>)\<rparr>"

text \<open>
  \<open>obj.set({...})\<close> is not a plain assignment: for each key of its argument fabric runs the
  setter \<open>_set\<close> of the object's class. The setter stores the value, except that
  \<^item> \<open>type\<close> cannot be assigned (it is an accessor of the class);
  \<^item> a scale is normalised, and a negative scale is stored positive and flips the object,
    so \<open>scaleX\<close>, \<open>scaleY\<close>, \<open>flipX\<close> and \<open>flipY\<close> are computed when a scale is assigned;
  \<^item> a \<open>shadow\<close> is converted, and \<open>dirty\<close> and \<open>canvas\<close> belong to fabric's bookkeeping;
  \<^item> a Line recomputes \<open>width\<close>, \<open>height\<close>, \<open>left\<close> and \<open>top\<close> from its end points when
    one of \<open>x1\<close>, \<open>y1\<close>, \<open>x2\<close>, \<open>y2\<close> is assigned;
  \<^item> an Ellipse sets \<open>width\<close> when \<open>rx\<close> is assigned and \<open>height\<close> when \<open>ry\<close> is;
  \<^item> a Rect has no setter of its own;
  \<^item> the setters of the other classes are not modelled: any of their properties may be
    computed, except \<open>id\<close> and \<open>__skipEmit\<close>, which are not fabric's and which no setter
    writes.
  \<open>recomputed t d k\<close> says that property \<open>k\<close> of an object of type \<open>t\<close> may be computed
  when \<open>d\<close> is assigned. The values computed depend on the order of the keys and on
  fabric's geometry; they are not determined by this repository and are taken from the
  parameter \<open>computed\<close> of the client: \<open>computed st p d k\<close> is property \<open>k\<close> after \<open>set(d)\<close> on
  an object whose properties were \<open>p\<close>. Every other property is \<open>stored_as_given\<close>. The
  argument is a bag of data fields; a key that names a method of the object is outside
  the model.
\<close>

definition carries :: "bag \<Rightarrow> string list \<Rightarrow> bool" where
  "carries d ks = list_ex (\<lambda>k. d k \<noteq> None) ks"

definition recomputed :: "jsval option \<Rightarrow> bag \<Rightarrow> string \<Rightarrow> bool" where
  "recomputed t d k =
     (if k \<in> set [''id'', ''__skipEmit''] then False
      else if k \<in> set [''dirty'', ''canvas''] then True
      else if k = ''shadow'' then carries d [''shadow'']
      else if k \<in> set [''scaleX'', ''scaleY'', ''flipX'', ''flipY'']
              \<and> carries d [''scaleX'', ''scaleY''] then True
      else if t \<in> set [Some (Str ''Rect''), Some (Str ''rect'')] then False
      else if t \<in> set [Some (Str ''Line''), Some (Str ''line'')]
        then k \<in> set [''width'', ''height'', ''left'', ''top'']
             \<and> carries d [''x1'', ''y1'', ''x2'', ''y2'']
      else if t \<in> set [Some (Str ''Ellipse''), Some (Str ''ellipse'')]
        then (k = ''width'' \<and> carries d [''rx'']) \<or> (k = ''height'' \<and> carries d [''ry''])
      else True)"

definition stored_as_given :: "jsval option \<Rightarrow> bag \<Rightarrow> string \<Rightarrow> bool" where
  "stored_as_given t d k = (k \<noteq> ''type'' \<and> \<not> recomputed t d k)"

definition fabric_set :: "ref \<Rightarrow> bag \<Rightarrow> client \<Rightarrow> client" where
  "fabric_set r d st =
     (let p = props (heap st r)
      in st\<lparr>heap := (heap st)(r := (heap st r)\<lparr>props :=
              (\<lambda>k. if k = ''type'' then p k
                   else if recomputed (p ''type'') d k then computed st p d k
                   else (p ++ d) k)\<rparr>)\<rparr>)"

definition set_on_canvas :: "ref \<Rightarrow> bool \<Rightarrow> client \<Rightarrow> client" where
  "set_on_canvas r b st = st\<lparr>heap := (heap st)(r := (heap st r)\<lparr>on_canvas := b\<rparr>)\<rparr>"

text \<open>
  \<open>new\<close> returns a reference that no variable of the client holds: one above every
  reference on the canvas, in \<open>shape\<close> and in the active selection.
\<close>

definition opt_refs :: "ref option \<Rightarrow> ref list" where
  "opt_refs x = (case x of None \<Rightarrow> [] | Some r \<Rightarrow> [r])"

definition fresh_ref :: "client \<Rightarrow> ref" where
  "fresh_ref st =
     Suc (fold max (objects st @ opt_refs (shape st) @ opt_refs (activeObject st)) 0)"

definition new_obj :: "bag \<Rightarrow> client \<Rightarrow> ref \<times> client" where
  "new_obj kv st =
     (let r = fresh_ref st
      in (r, st\<lparr>heap := (heap st)(r := \<lparr>props = kv, on_canvas = False\<rparr>)\<rparr>))"

text \<open>
  Serialisation. fabric's \<open>toObject\<close> writes a fixed set of properties and the extra ones
  it is asked for; the client asks for \<open>id\<close> (\<open>toJSON(['id'])\<close>, and the patched
  \<open>toObject\<close> adds \<open>id\<close> again). \<open>__skipEmit\<close> and \<open>selectable\<close> are not among them.
\<close>

definition stateProperties :: "string list" where
  "stateProperties =
     [''type'', ''left'', ''top'', ''width'', ''height'', ''fill'', ''stroke'',
      ''strokeWidth'', ''scaleX'', ''scaleY'', ''angle'', ''opacity'', ''visible'',
      ''rx'', ''ry'', ''x1'', ''y1'', ''x2'', ''y2'', ''path'']"

definition toObject :: "string list \<Rightarrow> fobj \<Rightarrow> bag" where
  "toObject properties obj =
     (\<lambda>k. if k \<in> set (stateProperties @ properties @ [''id'']) then props obj k else None)"

definition toJSON :: "string list \<Rightarrow> fobj \<Rightarrow> bag" where
  "toJSON properties obj = toObject properties obj"


definition emit :: "string \<Rightarrow> bag \<Rightarrow> client \<Rightarrow> client" where
  "emit name data st = st\<lparr>emitted := emitted st @ [(name, data)]\<rparr>"

section \<open>Change observer: the canvas listeners\<close>

text \<open>\<open>canvas.on('object:added', ...)\<close>; \<open>e.target\<close> may be absent.\<close>

definition canvas_on_added :: "ref option \<Rightarrow> client \<Rightarrow> client" where
  "canvas_on_added target st =
     (case target of
        None \<Rightarrow> st
      | Some t \<Rightarrow>
          (let st1 = (if \<not> truthy (obj_get st t ''id'')
                      then (let (uid, st') = generateId st
                            in obj_set t [''id'' \<mapsto> Str uid] st')
                      else st)
           in if truthy (obj_get st1 t ''__skipEmit'') then st1
              else emit ''object:added'' (toJSON [''id''] (heap st1 t)) st1))"

text \<open>\<open>canvas.on('object:modified', ...)\<close>.\<close>

definition canvas_on_modified :: "ref option \<Rightarrow> client \<Rightarrow> client" where
  "canvas_on_modified target st =
     (case target of
        None \<Rightarrow> st
      | Some obj \<Rightarrow>
          if truthy (obj_get st obj ''__skipEmit'') then st
          else emit ''object:modified'' (toJSON [''id''] (heap st obj)) st)"

text \<open>\<open>canvas.on('object:removed', ...)\<close>.\<close>

definition canvas_on_removed :: "ref option \<Rightarrow> client \<Rightarrow> client" where
  "canvas_on_removed target st =
     (case target of
        None \<Rightarrow> st
      | Some obj \<Rightarrow>
          if truthy (obj_get st obj ''__skipEmit'') then st
          else emit ''object:removed'' (toJSON [''id''] (heap st obj)) st)"

section \<open>The fabric canvas\<close>

text \<open>
  \<open>canvas.add(obj)\<close> appends the object, sets its back-reference and fires
  \<open>object:added\<close>; \<open>canvas.remove(obj)\<close> takes the object out if it is there, clears the
  back-reference and the active selection of it, and fires \<open>object:removed\<close>;
  \<open>canvas.clear()\<close> removes every object in this way and resets the background. The
  listeners run synchronously. \<open>renderAll\<close> only repaints and is left out.
\<close>

definition canvas_add :: "ref \<Rightarrow> client \<Rightarrow> client" where
  "canvas_add r st =
     canvas_on_added (Some r) (set_on_canvas r True (st\<lparr>objects := objects st @ [r]\<rparr>))"

definition canvas_remove :: "ref \<Rightarrow> client \<Rightarrow> client" where
  "canvas_remove r st =
     (if r \<in> set (objects st)
      then canvas_on_removed (Some r)
             (set_on_canvas r False
                (st\<lparr>objects := remove1 r (objects st),
                    activeObject := (if activeObject st = Some r then None
                                     else activeObject st)\<rparr>))
      else st)"

definition canvas_clear :: "client \<Rightarrow> client" where
  "canvas_clear st =
     (fold canvas_remove (objects st) (st\<lparr>activeObject := None\<rparr>))\<lparr>backgroundColor := ''''\<rparr>"

section \<open>Remote apply engine: the socket listeners\<close>

text \<open>
  \<open>util.enlivenObjects\<close> instantiates an object from serialised data: the class is looked
  up by the \<open>type\<close> field, and the promise is rejected when no class is registered for it.
  The instance carries the data's properties and is on no canvas.
\<close>

definition enliven :: "client \<Rightarrow> bag \<Rightarrow> fobj option" where
  "enliven st objectData =
     (case objectData ''type'' of
        Some (Str t) \<Rightarrow>
          if t \<in> set (registry st) then Some \<lparr>props = objectData, on_canvas = False\<rparr>
          else None
      | _ \<Rightarrow> None)"

text \<open>\<open>canvas.getObjects().find((o) => o.get('id') === v)\<close>: the first match.\<close>

definition find_by_id :: "client \<Rightarrow> jsval option \<Rightarrow> ref option" where
  "find_by_id st v = List.find (\<lambda>x. obj_get st x ''id'' = v) (objects st)"

text \<open>
  \<open>socket.on('object:added', ...)\<close>. A rejected promise goes to \<open>console.error\<close> and changes
  nothing. The instance is put on the heap when it is added to the canvas.
\<close>

definition socket_on_added :: "bag \<Rightarrow> client \<Rightarrow> client" where
  "socket_on_added objectData st =
     (case enliven st objectData of
        None \<Rightarrow> st
      | Some obj \<Rightarrow>
          (case find_by_id st (props obj ''id'') of
             Some _ \<Rightarrow> st
           | None \<Rightarrow>
               (let (r, st1) = new_obj (props obj) st;
                    st2 = obj_set r [''__skipEmit'' \<mapsto> Bool True] st1
                in canvas_add r st2)))"

text \<open>\<open>socket.on('object:modified', ...)\<close>.\<close>

definition socket_on_modified :: "bag \<Rightarrow> client \<Rightarrow> client" where
  "socket_on_modified objectData st =
     (case find_by_id st (objectData ''id'') of
        None \<Rightarrow> st
      | Some obj \<Rightarrow>
          fabric_set obj objectData (obj_set obj [''__skipEmit'' \<mapsto> Bool True] st))"

text \<open>\<open>socket.on('object:removed', ...)\<close>.\<close>

definition socket_on_removed :: "bag \<Rightarrow> client \<Rightarrow> client" where
  "socket_on_removed objectData st =
     (case find_by_id st (objectData ''id'') of
        None \<Rightarrow> st
      | Some obj \<Rightarrow> canvas_remove obj (obj_set obj [''__skipEmit'' \<mapsto> Bool True] st))"

text \<open>\<open>socket.on('canvas:clear', ...)\<close>.\<close>

definition socket_on_clear :: "client \<Rightarrow> client" where
  "socket_on_clear st = canvas_clear st"

text \<open>
  \<open>socket.on('object:sync', ...)\<close>. \<open>enlivenObjects(payload.objects)\<close> is rejected as a
  whole when one object cannot be instantiated; the rejection is not caught and the
  canvas is left as it was.
\<close>

fun enlivenObjects :: "client \<Rightarrow> bag list \<Rightarrow> fobj list option" where
  "enlivenObjects st [] = Some []"
| "enlivenObjects st (d # ds) =
     (case enliven st d of
        None \<Rightarrow> None
      | Some obj \<Rightarrow>
          (case enlivenObjects st ds of None \<Rightarrow> None | Some objs \<Rightarrow> Some (obj # objs)))"

definition sync_add :: "fobj \<Rightarrow> client \<Rightarrow> client" where
  "sync_add obj st =
     (let (r, st1) = new_obj (props obj) st;
          st2 = obj_set r [''__skipEmit'' \<mapsto> Bool True] st1
      in canvas_add r st2)"

definition socket_on_sync :: "bag list \<Rightarrow> client \<Rightarrow> client" where
  "socket_on_sync payload_objects st =
     (case enlivenObjects st payload_objects of
        None \<Rightarrow> st
      | Some objs \<Rightarrow> fold sync_add objs (canvas_clear st))"

text \<open>\<open>socket.on('connect', ...)\<close> only stores \<open>socket.id\<close> for display.\<close>

definition socket_on_connect :: "client \<Rightarrow> client" where
  "socket_on_connect st = st"

section \<open>Transport lifecycle: the initialisation effect\<close>

text \<open>\<open>socket.off(name)\<close> and \<open>removeEventListener\<close> drop the listeners of one event.\<close>

definition off :: "string \<Rightarrow> string list \<Rightarrow> string list" where
  "off name ls = filter (\<lambda>n. n \<noteq> name) ls"

text \<open>The function that \<open>init\<close> returns.\<close>

definition init_cleanup :: "client \<Rightarrow> client" where
  "init_cleanup st =
     (let st1 = st\<lparr>window_listeners := off ''keydown'' (off ''resize'' (window_listeners st))\<rparr>;
          st2 = st1\<lparr>socket_listeners :=
                      off ''object:sync'' (off ''object:modified''
                        (off ''object:removed'' (off ''object:added'' (socket_listeners st1))))\<rparr>;
          st3 = (if socketRef st2 then st2\<lparr>connected := False, socketRef := False\<rparr> else st2)
      in if fabricCanvasRef st3 then st3\<lparr>disposed := True, fabricCanvasRef := False\<rparr>
         else st3)"

text \<open>
  \<open>init\<close>: connects, creates the canvas (empty, with fabric's group selection enabled,
  as a new canvas is) and registers every listener. The three canvas
  listeners of the change observer are registered here and never taken off; the canvas
  operations above call them directly.
\<close>

definition init :: "client \<Rightarrow> client \<times> (client \<Rightarrow> client) option" where
  "init st =
     (if isInitialized st then (st, None)
      else if \<not> canvasEl st then (st, None)
      else
        (st\<lparr>socketRef := True, connected := True,
            objects := [], backgroundColor := ''#fff'', selection := True,
            fabricCanvasRef := True, isInitialized := True,
            socket_listeners := socket_listeners st @
              [''connect'', ''object:added'', ''object:modified'', ''object:removed'',
               ''canvas:clear'', ''object:sync''],
            window_listeners := window_listeners st @ [''resize'', ''keydown'']\<rparr>,
         Some init_cleanup))"

text \<open>
  The effect itself: \<open>useEffect(() => { const init = async () => {...}; init(); }, [])\<close>.
  It calls \<open>init\<close> and returns nothing, so React holds no cleanup for this effect.
\<close>

definition init_effect :: "client \<Rightarrow> client \<times> (client \<Rightarrow> client) option" where
  "init_effect st = (let (st', returned) = init st in (st', None))"

section \<open>The tool effect and the gestures\<close>

definition set_selectable :: "bool \<Rightarrow> client \<Rightarrow> client" where
  "set_selectable b st = fold (\<lambda>r. obj_set r [''selectable'' \<mapsto> Bool b]) (objects st) st"

text \<open>\<open>cleanup\<close>, a closure over the tool of the render that made it.\<close>

definition cleanup :: "tool \<Rightarrow> client \<Rightarrow> client" where
  "cleanup t st =
     (let st1 = st\<lparr>isDrawingMode := False, selection := False,
                   mouse_listeners :=
                     off ''mouse:up'' (off ''mouse:move'' (off ''mouse:down''
                       (mouse_listeners st)))\<rparr>
      in if t \<noteq> Select then set_selectable False st1 else st1)"

definition tool_effect :: "client \<Rightarrow> client \<times> tool option" where
  "tool_effect st =
     (if \<not> fabricCanvasRef st then (st, None)
      else
        (let st1 = cleanup (tool st) st;
             st2 = st1\<lparr>startX := 0, startY := 0, shape := None\<rparr>;
             mouse = (\<lambda>s. s\<lparr>mouse_listeners := mouse_listeners s @
                                [''mouse:down'', ''mouse:move'', ''mouse:up'']\<rparr>);
             st3 = (case tool st of
                      Rectangle \<Rightarrow> mouse st2
                    | Line \<Rightarrow> mouse st2
                    | Ellipse \<Rightarrow> mouse st2
                    | Select \<Rightarrow> set_selectable True (st2\<lparr>selection := True\<rparr>)
                    | Clear \<Rightarrow> (canvas_clear st2)\<lparr>backgroundColor := ''#fff''\<rparr>
                    | Draw \<Rightarrow> st2\<lparr>isDrawingMode := True\<rparr>)
         in (st3, Some (tool st))))"

text \<open>
  A render whose \<open>tool\<close>, \<open>brushColor\<close> or \<open>brushSize\<close> changed: React runs the cleanup it
  holds, then the effect, and keeps the new cleanup.
\<close>

definition rerender :: "client \<Rightarrow> client" where
  "rerender st =
     (let st1 = (case tool_cleanup st of None \<Rightarrow> st | Some t \<Rightarrow> cleanup t st);
          (st2, c) = tool_effect st1
      in st2\<lparr>tool_cleanup := c\<rparr>)"

definition setTool :: "tool \<Rightarrow> client \<Rightarrow> client" where
  "setTool t st = (if t = tool st then st else rerender (st\<lparr>tool := t\<rparr>))"

definition setBrushColor :: "string \<Rightarrow> client \<Rightarrow> client" where
  "setBrushColor c st = (if c = brushColor st then st else rerender (st\<lparr>brushColor := c\<rparr>))"

definition setBrushSize :: "real \<Rightarrow> client \<Rightarrow> client" where
  "setBrushSize n st = (if n = brushSize st then st else rerender (st\<lparr>brushSize := n\<rparr>))"

text \<open>
  Mounting runs both effects. \<open>init\<close> is asynchronous and suspends at its first \<open>await\<close>,
  before the canvas exists, so the tool effect of the first render finds no canvas and
  returns at once; \<open>init\<close> then completes. Unmounting runs the cleanups React holds.
\<close>

definition mount :: "client \<Rightarrow> client \<times> (client \<Rightarrow> client) option" where
  "mount st =
     (let (st1, c) = tool_effect st;
          (st2, init_returned) = init_effect (st1\<lparr>tool_cleanup := c\<rparr>)
      in (st2, init_returned))"

definition unmount :: "(client \<Rightarrow> client) option \<Rightarrow> client \<Rightarrow> client" where
  "unmount init_returned st =
     (let st1 = (case tool_cleanup st of None \<Rightarrow> st | Some t \<Rightarrow> cleanup t st)
      in case init_returned of None \<Rightarrow> st1 | Some f \<Rightarrow> f st1)"

subsection \<open>Rectangle\<close>

definition rect_handleMouseDown :: "real \<Rightarrow> real \<Rightarrow> client \<Rightarrow> client" where
  "rect_handleMouseDown x y st =
     (let st1 = st\<lparr>startX := x, startY := y\<rparr>;
          (r, st2) = new_obj [''type'' \<mapsto> Str ''Rect'', ''left'' \<mapsto> Num (startX st1),
                              ''top'' \<mapsto> Num (startY st1), ''fill'' \<mapsto> Str ''transparent'',
                              ''stroke'' \<mapsto> Str (brushColor st1),
                              ''strokeWidth'' \<mapsto> Num (brushSize st1),
                              ''width'' \<mapsto> Num 0, ''height'' \<mapsto> Num 0] st1
      in st2\<lparr>shape := Some r\<rparr>)"

definition rect_handleMouseMove :: "real \<Rightarrow> real \<Rightarrow> client \<Rightarrow> client" where
  "rect_handleMouseMove x y st =
     (case shape st of
        None \<Rightarrow> st
      | Some r \<Rightarrow>
          (let st1 = fabric_set r [''width'' \<mapsto> Num \<bar>x - startX st\<bar>,
                                ''height'' \<mapsto> Num \<bar>y - startY st\<bar>,
                                ''left'' \<mapsto> Num (min (startX st) x),
                                ''top'' \<mapsto> Num (min (startY st) y)] st
           in if on_canvas (heap st1 r) then st1 else canvas_add r st1))"

definition rect_handleMouseUp :: "client \<Rightarrow> client" where
  "rect_handleMouseUp st =
     (case shape st of
        None \<Rightarrow> st
      | Some r \<Rightarrow>
          (if obj_get st r ''width'' \<noteq> Some (Num 0) \<and> obj_get st r ''height'' \<noteq> Some (Num 0)
           then canvas_add r (if on_canvas (heap st r) then canvas_remove r st else st)
           else st))\<lparr>shape := None\<rparr>"

subsection \<open>Line\<close>

definition line_handleMouseDown :: "real \<Rightarrow> real \<Rightarrow> client \<Rightarrow> client" where
  "line_handleMouseDown x y st =
     (let st1 = st\<lparr>startX := x, startY := y\<rparr>;
          (r, st2) = new_obj [''type'' \<mapsto> Str ''Line'',
                              ''x1'' \<mapsto> Num (startX st1), ''y1'' \<mapsto> Num (startY st1),
                              ''x2'' \<mapsto> Num (startX st1), ''y2'' \<mapsto> Num (startY st1),
                              ''stroke'' \<mapsto> Str (brushColor st1),
                              ''strokeWidth'' \<mapsto> Num (brushSize st1)] st1
      in st2\<lparr>shape := Some r\<rparr>)"

definition line_handleMouseMove :: "real \<Rightarrow> real \<Rightarrow> client \<Rightarrow> client" where
  "line_handleMouseMove x y st =
     (case shape st of
        None \<Rightarrow> st
      | Some r \<Rightarrow>
          (let st1 = fabric_set r [''x2'' \<mapsto> Num x, ''y2'' \<mapsto> Num y] st
           in if on_canvas (heap st1 r) then st1 else canvas_add r st1))"

definition line_handleMouseUp :: "client \<Rightarrow> client" where
  "line_handleMouseUp st =
     (case shape st of
        None \<Rightarrow> st
      | Some r \<Rightarrow>
          (if obj_get st r ''x2'' \<noteq> Some (Num (startX st))
              \<or> obj_get st r ''y2'' \<noteq> Some (Num (startY st))
           then canvas_add r (if on_canvas (heap st r) then canvas_remove r st else st)
           else st))\<lparr>shape := None\<rparr>"

subsection \<open>Ellipse\<close>

definition ellipse_handleMouseDown :: "real \<Rightarrow> real \<Rightarrow> client \<Rightarrow> client" where
  "ellipse_handleMouseDown x y st =
     (let st1 = st\<lparr>startX := x, startY := y\<rparr>;
          (r, st2) = new_obj [''type'' \<mapsto> Str ''Ellipse'', ''left'' \<mapsto> Num (startX st1),
                              ''top'' \<mapsto> Num (startY st1), ''rx'' \<mapsto> Num 0, ''ry'' \<mapsto> Num 0,
                              ''fill'' \<mapsto> Str ''transparent'',
                              ''stroke'' \<mapsto> Str (brushColor st1),
                              ''strokeWidth'' \<mapsto> Num (brushSize st1)] st1
      in st2\<lparr>shape := Some r\<rparr>)"

definition ellipse_handleMouseMove :: "real \<Rightarrow> real \<Rightarrow> client \<Rightarrow> client" where
  "ellipse_handleMouseMove x y st =
     (case shape st of
        None \<Rightarrow> st
      | Some r \<Rightarrow>
          (let st1 = fabric_set r [''rx'' \<mapsto> Num (\<bar>x - startX st\<bar> / 2),
                                ''ry'' \<mapsto> Num (\<bar>y - startY st\<bar> / 2),
                                ''left'' \<mapsto> Num (min (startX st) x),
                                ''top'' \<mapsto> Num (min (startY st) y)] st
           in if on_canvas (heap st1 r) then st1 else canvas_add r st1))"

definition ellipse_handleMouseUp :: "client \<Rightarrow> client" where
  "ellipse_handleMouseUp st =
     (case shape st of
        None \<Rightarrow> st
      | Some r \<Rightarrow>
          (if obj_get st r ''rx'' \<noteq> Some (Num 0) \<and> obj_get st r ''ry'' \<noteq> Some (Num 0)
           then canvas_add r (if on_canvas (heap st r) then canvas_remove r st else st)
           else st))\<lparr>shape := None\<rparr>"

subsection \<open>Dispatch of pointer and key events\<close>

text \<open>
  The mouse listeners on the canvas are those of the tool of the last effect run.
  \<open>handleKeyDown\<close> is the window's \<open>keydown\<close> listener.
\<close>

definition mouse_down :: "real \<Rightarrow> real \<Rightarrow> client \<Rightarrow> client" where
  "mouse_down x y st =
     (if ''mouse:down'' \<in> set (mouse_listeners st)
      then (case tool st of
              Rectangle \<Rightarrow> rect_handleMouseDown x y st
            | Line \<Rightarrow> line_handleMouseDown x y st
            | Ellipse \<Rightarrow> ellipse_handleMouseDown x y st
            | _ \<Rightarrow> st)
      else st)"

definition mouse_move :: "real \<Rightarrow> real \<Rightarrow> client \<Rightarrow> client" where
  "mouse_move x y st =
     (if ''mouse:move'' \<in> set (mouse_listeners st)
      then (case tool st of
              Rectangle \<Rightarrow> rect_handleMouseMove x y st
            | Line \<Rightarrow> line_handleMouseMove x y st
            | Ellipse \<Rightarrow> ellipse_handleMouseMove x y st
            | _ \<Rightarrow> st)
      else st)"

definition mouse_up :: "client \<Rightarrow> client" where
  "mouse_up st =
     (if ''mouse:up'' \<in> set (mouse_listeners st)
      then (case tool st of
              Rectangle \<Rightarrow> rect_handleMouseUp st
            | Line \<Rightarrow> line_handleMouseUp st
            | Ellipse \<Rightarrow> ellipse_handleMouseUp st
            | _ \<Rightarrow> st)
      else st)"

definition handleKeyDown :: "string \<Rightarrow> client \<Rightarrow> client" where
  "handleKeyDown key st =
     (if key = ''Delete'' \<or> key = ''Backspace''
      then (case activeObject st of None \<Rightarrow> st | Some a \<Rightarrow> canvas_remove a st)
      else st)"

subsection \<open>What fabric does on its own\<close>

text \<open>
  Outside drawing mode the user can pick an object of the canvas that is selectable
  (\<open>selectable\<close> is true unless it was set to false) and drag it: fabric moves the object
  and then fires \<open>object:modified\<close> with it as target. While \<open>canvas.selection\<close> is true
  the user can also pick several objects at once: fabric creates an ActiveSelection, an
  object of its own that holds the picked objects, is the active object and is not added
  to the canvas; when the user drags it, fabric fires \<open>object:modified\<close> with the
  ActiveSelection as target. In drawing mode the brush creates a path and adds it to the
  canvas.
\<close>

definition can_grab :: "client \<Rightarrow> ref \<Rightarrow> bool" where
  "can_grab st r =
     (r \<in> set (objects st) \<and> \<not> isDrawingMode st
      \<and> obj_get st r ''selectable'' \<noteq> Some (Bool False))"

definition select_object :: "ref \<Rightarrow> client \<Rightarrow> client" where
  "select_object r st = (if can_grab st r then st\<lparr>activeObject := Some r\<rparr> else st)"

definition drag_object :: "ref \<Rightarrow> real \<Rightarrow> real \<Rightarrow> client \<Rightarrow> client" where
  "drag_object r x y st =
     (if can_grab st r
      then canvas_on_modified (Some r) (obj_set r [''left'' \<mapsto> Num x, ''top'' \<mapsto> Num y] st)
      else st)"

definition drag_selection :: "ref list \<Rightarrow> real \<Rightarrow> real \<Rightarrow> client \<Rightarrow> client" where
  "drag_selection rs x y st =
     (if selection st \<and> 2 \<le> length rs \<and> distinct rs \<and> list_all (can_grab st) rs
      then (let (a, st1) = new_obj [''type'' \<mapsto> Str ''ActiveSelection'',
                                    ''left'' \<mapsto> Num x, ''top'' \<mapsto> Num y] st
            in canvas_on_modified (Some a) (st1\<lparr>activeObject := Some a\<rparr>))
      else st)"

definition brush_stroke :: "string \<Rightarrow> client \<Rightarrow> client" where
  "brush_stroke path st =
     (if isDrawingMode st
      then (let (r, st1) = new_obj [''type'' \<mapsto> Str ''Path'', ''path'' \<mapsto> Str path,
                                    ''stroke'' \<mapsto> Str (brushColor st),
                                    ''strokeWidth'' \<mapsto> Num (brushSize st)] st
            in canvas_add r st1)
      else st)"

section \<open>The client as a reactive system\<close>

datatype message =
    Connect
  | ObjectAdded bag
  | ObjectModified bag
  | ObjectRemoved bag
  | CanvasClear
  | ObjectSync "bag list"

fun message_name :: "message \<Rightarrow> string" where
  "message_name Connect = ''connect''"
| "message_name (ObjectAdded d) = ''object:added''"
| "message_name (ObjectModified d) = ''object:modified''"
| "message_name (ObjectRemoved d) = ''object:removed''"
| "message_name CanvasClear = ''canvas:clear''"
| "message_name (ObjectSync ds) = ''object:sync''"

fun deliver :: "message \<Rightarrow> client \<Rightarrow> client" where
  "deliver Connect st = socket_on_connect st"
| "deliver (ObjectAdded d) st = socket_on_added d st"
| "deliver (ObjectModified d) st = socket_on_modified d st"
| "deliver (ObjectRemoved d) st = socket_on_removed d st"
| "deliver CanvasClear st = socket_on_clear st"
| "deliver (ObjectSync ds) st = socket_on_sync ds st"

datatype input =
    Receive message
  | SetTool tool
  | SetBrushColor string
  | SetBrushSize real
  | MouseDown real real
  | MouseMove real real
  | MouseUp
  | KeyDown string
  | SelectObject ref
  | DragObject ref real real
  | DragSelection "ref list" real real
  | BrushStroke string

fun step :: "input \<Rightarrow> client \<Rightarrow> client" where
  "step (Receive m) st =
     (if connected st \<and> message_name m \<in> set (socket_listeners st) then deliver m st else st)"
| "step (SetTool t) st = setTool t st"
| "step (SetBrushColor c) st = setBrushColor c st"
| "step (SetBrushSize n) st = setBrushSize n st"
| "step (MouseDown x y) st = mouse_down x y st"
| "step (MouseMove x y) st = mouse_move x y st"
| "step (MouseUp) st = mouse_up st"
| "step (KeyDown key) st =
     (if ''keydown'' \<in> set (window_listeners st) then handleKeyDown key st else st)"
| "step (SelectObject r) st = select_object r st"
| "step (DragObject r x y) st = drag_object r x y st"
| "step (DragSelection rs x y) st = drag_selection rs x y st"
| "step (BrushStroke path) st = brush_stroke path st"

definition run :: "input list \<Rightarrow> client \<Rightarrow> client" where
  "run ins st = fold step ins st"

text \<open>
  The component before it is mounted, and the client once mounted. Their \<open>computed\<close> is
  the setter that computes nothing more than it stores; the theorems about the handlers
  hold for every client, hence for every \<open>computed\<close>.
\<close>

definition unmounted :: "string list \<Rightarrow> (nat \<Rightarrow> nat \<Rightarrow> 8 word) \<Rightarrow> client" where
  "unmounted reg rnd =
     \<lparr>registry = reg, computed = (\<lambda>p d k. (p ++ d) k),
      heap = (\<lambda>r. \<lparr>props = Map.empty, on_canvas = False\<rparr>), objects = [],
      activeObject = None, backgroundColor = [], disposed = False, emitted = [],
      rng = rnd, rng_calls = 0, canvasEl = True, isInitialized = False,
      fabricCanvasRef = False, socketRef = False, connected = False,
      socket_listeners = [], window_listeners = [], mouse_listeners = [],
      tool = Select, brushColor = ''#000000'', brushSize = 3, startX = 0, startY = 0,
      shape = None, isDrawingMode = False, selection = False, tool_cleanup = None\<rparr>"

definition mounted :: "string list \<Rightarrow> (nat \<Rightarrow> nat \<Rightarrow> 8 word) \<Rightarrow> client" where
  "mounted reg rnd = fst (mount (unmounted reg rnd))"

subsection \<open>Concrete clients and payloads\<close>

text \<open>
  A registry with the classes this client draws, a random source (every byte of its
  \<open>k\<close>-th draw is \<open>k\<close>), the
  rectangle of the specification's scenario, a line, and a client that has received a
  snapshot of both.
\<close>

definition demo_registry :: "string list" where
  "demo_registry = [''Rect'', ''Line'', ''Ellipse'', ''Path'']"

definition demo_rng :: "nat \<Rightarrow> nat \<Rightarrow> 8 word" where
  "demo_rng k i = of_nat k"

definition rect_r1 :: bag where
  "rect_r1 = [''type'' \<mapsto> Str ''Rect'', ''id'' \<mapsto> Str ''r1'', ''left'' \<mapsto> Num 10,
              ''top'' \<mapsto> Num 10, ''width'' \<mapsto> Num 50, ''height'' \<mapsto> Num 30]"

definition line_l1 :: bag where
  "line_l1 = [''type'' \<mapsto> Str ''Line'', ''id'' \<mapsto> Str ''l1'', ''x1'' \<mapsto> Num 0,
              ''y1'' \<mapsto> Num 0, ''x2'' \<mapsto> Num 5, ''y2'' \<mapsto> Num 5]"

definition fresh_client :: client where
  "fresh_client = mounted demo_registry demo_rng"

definition synced_client :: client where
  "synced_client = run [Receive (ObjectSync [rect_r1, line_l1])] fresh_client"

text \<open>
  A client whose user has drawn a rectangle from (10, 10) to (60, 40), and the payload of
  the last event it sent (the \<open>object:added\<close> of that rectangle).
\<close>

definition drawn_client :: client where
  "drawn_client =
     run [SetTool Rectangle, MouseDown 10 10, MouseMove 60 40, MouseUp] fresh_client"

definition own_broadcast :: bag where
  "own_broadcast = snd (last (emitted drawn_client))"




subsection \<open>Notions used in the statements\<close>

text \<open>The number of objects of the store that carry a given identity.\<close>

definition count_id :: "client \<Rightarrow> jsval option \<Rightarrow> nat" where
  "count_id st v = length (filter (\<lambda>r. obj_get st r ''id'' = v) (objects st))"

text \<open>
  What inserting a remote object amounts to (shown below for \<open>sync_add\<close> and
  \<open>socket_on_added\<close>): a new object with the data's properties and the marker, at the end
  of the store.
\<close>

definition remote_insert :: "bag \<Rightarrow> client \<Rightarrow> client" where
  "remote_insert d st =
     (let r = fresh_ref st
      in st\<lparr>heap := (heap st)(r := \<lparr>props = d(''__skipEmit'' \<mapsto> Bool True), on_canvas = True\<rparr>),
            objects := objects st @ [r]\<rparr>)"

text \<open>
  Three gestures that end on a degenerate shape: a rectangle of width 0, a line brought
  back to its start point, an ellipse of vertical radius 0.
\<close>

definition degenerate_rect_client :: client where
  "degenerate_rect_client =
     run [SetTool Rectangle, MouseDown 10 10, MouseMove 10 50, MouseUp] fresh_client"

definition degenerate_line_client :: client where
  "degenerate_line_client =
     run [SetTool Line, MouseDown 10 10, MouseMove 30 50, MouseMove 10 10, MouseUp] fresh_client"

definition degenerate_ellipse_client :: client where
  "degenerate_ellipse_client =
     run [SetTool Ellipse, MouseDown 10 10, MouseMove 50 10, MouseUp] fresh_client"

text \<open>
  A client whose user has drawn two rectangles and gone back to the select tool, and the
  same client after the user picked both rectangles and dragged the selection.
\<close>

definition two_rect_client :: client where
  "two_rect_client =
     run [SetTool Rectangle, MouseDown 10 10, MouseMove 60 40, MouseUp,
          MouseDown 100 100, MouseMove 150 140, MouseUp, SetTool Select] fresh_client"

definition group_drag_client :: client where
  "group_drag_client = run [DragSelection [1, 2] 200 200] two_rect_client"

text \<open>
  The same client after the user went back to the select tool, and a remote Modified
  event for its rectangle: a peer moved it.
\<close>

definition selecting_client :: client where
  "selecting_client = run [SetTool Select] drawn_client"

definition remote_move :: bag where
  "remote_move = own_broadcast(''left'' \<mapsto> Num 40, ''top'' \<mapsto> Num 40)"

text \<open>
  The names of the events the change observer sends, and an invariant of the client:
  every object of the store has an identity, and every event sent so far is one of
  these and, unless it is an \<open>object:modified\<close>, carries an identity.
\<close>

definition sync_names :: "string list" where
  "sync_names = [''object:added'', ''object:modified'', ''object:removed'']"

definition identified :: "(ref \<Rightarrow> fobj) \<Rightarrow> ref list \<Rightarrow> (string \<times> bag) list \<Rightarrow> bool" where
  "identified h os es =
     ((\<forall>r \<in> set os. truthy (props (h r) ''id''))
      \<and> (\<forall>e \<in> set es. fst e \<in> set sync_names
             \<and> (fst e \<noteq> ''object:modified'' \<longrightarrow> truthy (snd e ''id''))))"

definition identified_inv :: "client \<Rightarrow> bool" where
  "identified_inv st = identified (heap st) (objects st) (emitted st)"

section \<open>Basic facts about the store\<close>

lemma objects_emit [simp]: "objects (emit n d st) = objects st"
  by (simp add: emit_def)

lemma objects_obj_set [simp]: "objects (obj_set r kv st) = objects st"
  by (simp add: obj_set_def)

lemma objects_set_on_canvas [simp]: "objects (set_on_canvas r b st) = objects st"
  by (simp add: set_on_canvas_def)

lemma objects_canvas_on_added [simp]: "objects (canvas_on_added t st) = objects st"
  by (simp add: canvas_on_added_def generateId_def Let_def split: option.splits)

lemma objects_canvas_on_modified [simp]: "objects (canvas_on_modified t st) = objects st"
  by (simp add: canvas_on_modified_def split: option.splits)

lemma objects_canvas_on_removed [simp]: "objects (canvas_on_removed t st) = objects st"
  by (simp add: canvas_on_removed_def split: option.splits)

lemma objects_canvas_remove [simp]: "objects (canvas_remove r st) = remove1 r (objects st)"
  by (simp add: canvas_remove_def remove1_idem)

lemma objects_canvas_add [simp]: "objects (canvas_add r st) = objects st @ [r]"
  by (simp add: canvas_add_def)

lemma objects_fold_canvas_remove:
  "objects (fold canvas_remove xs st) = fold remove1 xs (objects st)"
  by (induction xs arbitrary: st) simp_all

lemma fold_remove1_self: "fold remove1 xs xs = []"
  by (induction xs) simp_all

lemma objects_canvas_clear [simp]: "objects (canvas_clear st) = []"
  by (simp add: canvas_clear_def objects_fold_canvas_remove fold_remove1_self)

lemma find_by_id_None:
  "(find_by_id st v = None) = (\<forall>r \<in> set (objects st). obj_get st r ''id'' \<noteq> v)"
  by (auto simp add: find_by_id_def find_None_iff)

section \<open>Inserting remote objects, and lookup by identity\<close>

lemma le_fold_max: "x \<in> set xs \<Longrightarrow> x \<le> fold max xs (a::nat)"
proof -
  assume "x \<in> set xs"
  then have "x \<le> Max (set (a # xs))" by simp
  then show ?thesis by (simp only: Max.set_eq_fold)
qed

lemma objects_lt_fresh_ref: "r \<in> set (objects st) \<Longrightarrow> r < fresh_ref st"
  using le_fold_max [of r "objects st @ opt_refs (shape st) @ opt_refs (activeObject st)" 0]
  by (simp add: fresh_ref_def)

lemma shape_lt_fresh_ref: "shape st = Some r \<Longrightarrow> r < fresh_ref st"
  using le_fold_max [of r "objects st @ opt_refs (shape st) @ opt_refs (activeObject st)" 0]
  by (simp add: fresh_ref_def opt_refs_def)

text \<open>Adding an object that carries an identity and the marker: nothing is emitted.\<close>

lemma canvas_add_marked:
  assumes "truthy (obj_get st r ''id'')" and "truthy (obj_get st r ''__skipEmit'')"
  shows "canvas_add r st = set_on_canvas r True (st\<lparr>objects := objects st @ [r]\<rparr>)"
  using assms
  by (simp add: canvas_add_def canvas_on_added_def obj_get_def set_on_canvas_def)

lemma sync_add_eq:
  assumes "truthy (props obj ''id'')"
  shows "sync_add obj st = remote_insert (props obj) st"
proof -
  let ?r = "fresh_ref st"
  let ?st2 = "obj_set ?r [''__skipEmit'' \<mapsto> Bool True] (snd (new_obj (props obj) st))"
  have id: "truthy (obj_get ?st2 ?r ''id'')"
    using assms by (simp add: obj_get_def obj_set_def new_obj_def Let_def)
  have sk: "truthy (obj_get ?st2 ?r ''__skipEmit'')"
    by (simp add: obj_get_def obj_set_def new_obj_def Let_def truthy_def)
  have "sync_add obj st = canvas_add ?r ?st2"
    by (simp add: sync_add_def new_obj_def Let_def)
  also have "\<dots> = set_on_canvas ?r True (?st2\<lparr>objects := objects ?st2 @ [?r]\<rparr>)"
    by (rule canvas_add_marked [OF id sk])
  also have "\<dots> = remote_insert (props obj) st"
    by (simp add: remote_insert_def set_on_canvas_def obj_set_def new_obj_def Let_def)
  finally show ?thesis .
qed

lemma enliven_props: "enliven st d = Some obj \<Longrightarrow> props obj = d"
  by (auto simp add: enliven_def split: option.splits jsval.splits if_splits)

lemma socket_on_added_new:
  assumes "enliven st d = Some obj" and "truthy (d ''id'')" and "find_by_id st (d ''id'') = None"
  shows "socket_on_added d st = remote_insert d st"
proof -
  have p: "props obj = d" using assms(1) by (rule enliven_props)
  have "socket_on_added d st = sync_add obj st"
    using assms p by (simp add: socket_on_added_def sync_add_def)
  then show ?thesis using sync_add_eq [of obj st] assms(2) p by simp
qed

lemma socket_on_added_known:
  assumes "find_by_id st (d ''id'') \<noteq> None"
  shows "socket_on_added d st = st"
  using assms by (auto simp add: socket_on_added_def enliven_def split: option.splits jsval.splits)

lemma obj_get_remote_insert_old:
  "r \<in> set (objects st) \<Longrightarrow> obj_get (remote_insert d st) r k = obj_get st r k"
  using objects_lt_fresh_ref [of r st]
  by (simp add: remote_insert_def obj_get_def Let_def)

lemma obj_get_remote_insert_new:
  "obj_get (remote_insert d st) (fresh_ref st) k = (d(''__skipEmit'' \<mapsto> Bool True)) k"
  by (simp add: remote_insert_def obj_get_def Let_def)

lemma objects_remote_insert: "objects (remote_insert d st) = objects st @ [fresh_ref st]"
  by (simp add: remote_insert_def Let_def)

lemma enliven_remote_insert: "enliven (remote_insert d' st) d = enliven st d"
  by (simp add: enliven_def remote_insert_def Let_def split: option.splits jsval.splits)

lemma find_by_id_remote_insert:
  assumes "find_by_id st (d ''id'') = None"
  shows "find_by_id (remote_insert d st) (d ''id'') = Some (fresh_ref st)"
proof -
  have old: "\<forall>r \<in> set (objects st). obj_get (remote_insert d st) r ''id'' \<noteq> d ''id''"
    using assms by (simp add: find_by_id_None obj_get_remote_insert_old)
  have new: "obj_get (remote_insert d st) (fresh_ref st) ''id'' = d ''id''"
    by (simp add: obj_get_remote_insert_new)
  have "List.find (\<lambda>x. obj_get (remote_insert d st) x ''id'' = d ''id'') (objects st @ [fresh_ref st])
          = Some (fresh_ref st)"
    using old new by (induction "objects st") (auto simp add: find_Some_iff nth_append)
  then show ?thesis by (simp add: find_by_id_def objects_remote_insert)
qed

lemma heap_remote_insert_old:
  "r \<in> set (objects st) \<Longrightarrow> heap (remote_insert d st) r = heap st r"
  using objects_lt_fresh_ref [of r st]
  by (simp add: remote_insert_def Let_def)

lemma heap_remote_insert_new:
  "heap (remote_insert d st) (fresh_ref st) = \<lparr>props = d(''__skipEmit'' \<mapsto> Bool True), on_canvas = True\<rparr>"
  by (simp add: remote_insert_def Let_def)

lemma fresh_ref_notin: "fresh_ref st \<notin> set (objects st)"
  using objects_lt_fresh_ref [of "fresh_ref st" st] by auto

lemma fold_sync_add:
  assumes "\<forall>obj \<in> set objs. truthy (props obj ''id'')" and "distinct (objects st)"
  shows "map (heap (fold sync_add objs st)) (objects (fold sync_add objs st))
           = map (heap st) (objects st)
             @ map (\<lambda>obj. \<lparr>props = (props obj)(''__skipEmit'' \<mapsto> Bool True), on_canvas = True\<rparr>) objs
         \<and> distinct (objects (fold sync_add objs st))"
  using assms
proof (induction objs arbitrary: st)
  case Nil
  then show ?case by simp
next
  case (Cons obj objs)
  let ?st1 = "remote_insert (props obj) st"
  have step: "sync_add obj st = ?st1"
    using Cons.prems(1) by (simp add: sync_add_eq)
  have d1: "distinct (objects ?st1)"
    using Cons.prems(2) by (simp add: objects_remote_insert fresh_ref_notin)
  have m1: "map (heap ?st1) (objects ?st1)
              = map (heap st) (objects st)
                @ [\<lparr>props = (props obj)(''__skipEmit'' \<mapsto> Bool True), on_canvas = True\<rparr>]"
    by (simp add: objects_remote_insert heap_remote_insert_old heap_remote_insert_new)
  have rest: "\<forall>x \<in> set objs. truthy (props x ''id'')"
    using Cons.prems(1) by simp
  have ih: "map (heap (fold sync_add objs ?st1)) (objects (fold sync_add objs ?st1))
              = map (heap ?st1) (objects ?st1)
                @ map (\<lambda>obj. \<lparr>props = (props obj)(''__skipEmit'' \<mapsto> Bool True), on_canvas = True\<rparr>) objs"
    and dist: "distinct (objects (fold sync_add objs ?st1))"
    using Cons.IH [OF rest d1] by blast+
  have f: "fold sync_add (obj # objs) st = fold sync_add objs ?st1"
    by (simp add: step)
  show ?case
    unfolding f ih m1 using dist by (simp add: fun_eq_iff)
qed

lemma enlivenObjects_all:
  assumes "\<forall>d \<in> set ds. enliven st d \<noteq> None"
  shows "enlivenObjects st ds = Some (map (\<lambda>d. \<lparr>props = d, on_canvas = False\<rparr>) ds)"
  using assms
proof (induction ds)
  case Nil
  then show ?case by simp
next
  case (Cons d ds)
  from Cons.prems obtain obj where e: "enliven st d = Some obj" by auto
  then have "obj = \<lparr>props = d, on_canvas = False\<rparr>"
    by (auto simp add: enliven_def split: option.splits jsval.splits if_splits)
  with e Cons show ?case by simp
qed


lemma find_by_id_Some:
  "find_by_id st v = Some x \<Longrightarrow> x \<in> set (objects st) \<and> obj_get st x ''id'' = v"
  by (auto simp add: find_by_id_def find_Some_iff)

lemma socket_on_modified_found:
  "find_by_id st (d ''id'') = Some x \<Longrightarrow>
   socket_on_modified d st = fabric_set x d (obj_set x [''__skipEmit'' \<mapsto> Bool True] st)"
  by (simp add: socket_on_modified_def)

text \<open>What the setter guarantees, whatever it computes.\<close>

lemma objects_fabric_set [simp]: "objects (fabric_set r d st) = objects st"
  by (simp add: fabric_set_def Let_def)

lemma emitted_fabric_set [simp]: "emitted (fabric_set r d st) = emitted st"
  by (simp add: fabric_set_def Let_def)

lemma on_canvas_fabric_set [simp]:
  "on_canvas (heap (fabric_set r d st) x) = on_canvas (heap st x)"
  by (simp add: fabric_set_def Let_def)

lemma obj_get_fabric_set_other:
  "x \<noteq> r \<Longrightarrow> obj_get (fabric_set r d st) x k = obj_get st x k"
  by (simp add: fabric_set_def obj_get_def Let_def)


lemma obj_get_fabric_set_given:
  "stored_as_given (obj_get st r ''type'') d k \<Longrightarrow>
   obj_get (fabric_set r d st) r k = (props (heap st r) ++ d) k"
  by (simp add: fabric_set_def obj_get_def stored_as_given_def Let_def)

lemma stored_as_given_custom:
  "stored_as_given t d ''id''" "stored_as_given t d ''__skipEmit''"
  by (simp_all add: stored_as_given_def recomputed_def)

lemma obj_get_fabric_set_id:
  "obj_get (fabric_set r d st) r ''id'' = (props (heap st r) ++ d) ''id''"
  by (rule obj_get_fabric_set_given [OF stored_as_given_custom(1)])

lemma obj_get_fabric_set_marker:
  "obj_get (fabric_set r d st) r ''__skipEmit'' = (props (heap st r) ++ d) ''__skipEmit''"
  by (rule obj_get_fabric_set_given [OF stored_as_given_custom(2)])



section \<open>Remote clear\<close>

text \<open>
  Claim C7. Applying a remote ClearEvent (\<open>canvas:clear\<close>) to a local store, whatever it
  holds, leaves a store with no object: every object is removed, whatever its identity.
\<close>

theorem remote_clear_empties_store: "objects (socket_on_clear st) = []"
  by (simp add: socket_on_clear_def)

text \<open>The client that holds the two objects of a snapshot is emptied.\<close>

theorem remote_clear_empties_store_witness:
  "length (objects synced_client) = 2 \<and> objects (socket_on_clear synced_client) = []"
proof -
  have "length (objects synced_client) = 2" by code_simp
  then show ?thesis using remote_clear_empties_store [of synced_client] by simp
qed

section \<open>Events for an unknown identity\<close>

text \<open>
  Claim C8. An inbound Modified or Removed event whose identity matches no object of
  the local store leaves the client exactly as it was: the store is unchanged, nothing is
  emitted, and the handler returns normally.
\<close>

theorem unknown_identity_is_noop:
  assumes "\<forall>r \<in> set (objects st). obj_get st r ''id'' \<noteq> objectData ''id''"
  shows "socket_on_modified objectData st = st \<and> socket_on_removed objectData st = st"
proof -
  from assms have "find_by_id st (objectData ''id'') = None"
    by (simp add: find_by_id_None)
  then show ?thesis
    by (simp add: socket_on_modified_def socket_on_removed_def)
qed

theorem unknown_identity_is_noop_witness:
  "list_all (\<lambda>r. obj_get synced_client r ''id'' \<noteq> Some (Str ''zz'')) (objects synced_client)
   \<and> socket_on_modified [''id'' \<mapsto> Str ''zz'', ''left'' \<mapsto> Num 1] synced_client = synced_client
   \<and> socket_on_removed [''id'' \<mapsto> Str ''zz'', ''left'' \<mapsto> Num 1] synced_client = synced_client"
proof -
  have l: "list_all (\<lambda>r. obj_get synced_client r ''id'' \<noteq> Some (Str ''zz''))
             (objects synced_client)"
    by code_simp
  then have h: "\<forall>r \<in> set (objects synced_client).
             obj_get synced_client r ''id'' \<noteq> [''id'' \<mapsto> Str ''zz'', ''left'' \<mapsto> Num 1] ''id''"
    by (simp add: list_all_iff)
  show ?thesis
    using l unknown_identity_is_noop
            [of synced_client "[''id'' \<mapsto> Str ''zz'', ''left'' \<mapsto> Num 1]", OF h]
    by simp
qed

section \<open>Idempotent remote Added\<close>

text \<open>
  Claim C5. Applying the same remote Added event twice, for an event that carries an
  identity and can be instantiated, is the same as applying it once; if the store held no
  object of that identity, it holds exactly one afterwards; and if the store already
  holds an object of that identity (as when the client's own broadcast is delivered back
  to it), the event changes nothing, so no duplicate is inserted.
\<close>

theorem remote_added_idempotent:
  assumes "truthy (objectData ''id'')" and "enliven st objectData \<noteq> None"
  shows "socket_on_added objectData (socket_on_added objectData st) = socket_on_added objectData st
       \<and> (count_id st (objectData ''id'') = 0 \<longrightarrow>
            count_id (socket_on_added objectData (socket_on_added objectData st)) (objectData ''id'') = 1)
       \<and> (count_id st (objectData ''id'') \<noteq> 0 \<longrightarrow> socket_on_added objectData st = st)"
proof (cases "find_by_id st (objectData ''id'')")
  case None
  from assms(2) obtain obj where e: "enliven st objectData = Some obj" by auto
  have once: "socket_on_added objectData st = remote_insert objectData st"
    by (rule socket_on_added_new [of st objectData obj, OF e assms(1) None])
  have found: "find_by_id (remote_insert objectData st) (objectData ''id'') \<noteq> None"
    using find_by_id_remote_insert [of st objectData, OF None] by simp
  have twice: "socket_on_added objectData (remote_insert objectData st) = remote_insert objectData st"
    by (rule socket_on_added_known [of "remote_insert objectData st" objectData, OF found])
  have zero: "count_id st (objectData ''id'') = 0"
    using None by (simp add: count_id_def find_by_id_None)
  have old: "filter (\<lambda>r. obj_get (remote_insert objectData st) r ''id'' = objectData ''id'') (objects st) = []"
    using None by (simp add: find_by_id_None obj_get_remote_insert_old)
  have "count_id (remote_insert objectData st) (objectData ''id'') = 1"
    using old by (simp add: count_id_def objects_remote_insert obj_get_remote_insert_new)
  then show ?thesis using once twice zero by simp
next
  case (Some r)
  then have known: "find_by_id st (objectData ''id'') \<noteq> None" by simp
  have same: "socket_on_added objectData st = st"
    by (rule socket_on_added_known [of st objectData, OF known])
  have "count_id st (objectData ''id'') \<noteq> 0"
    using known by (auto simp add: count_id_def find_by_id_None filter_empty_conv)
  then show ?thesis using same by simp
qed


text \<open>
  The rectangle \<open>r1\<close> delivered twice to an empty client, and the client that drew a
  rectangle receiving its own broadcast.
\<close>

theorem remote_added_idempotent_witness:
  "truthy (rect_r1 ''id'') \<and> enliven fresh_client rect_r1 \<noteq> None
   \<and> count_id fresh_client (rect_r1 ''id'') = 0
   \<and> socket_on_added rect_r1 (socket_on_added rect_r1 fresh_client)
       = socket_on_added rect_r1 fresh_client
   \<and> count_id (socket_on_added rect_r1 (socket_on_added rect_r1 fresh_client)) (rect_r1 ''id'') = 1
   \<and> truthy (own_broadcast ''id'') \<and> enliven drawn_client own_broadcast \<noteq> None
   \<and> count_id drawn_client (own_broadcast ''id'') = 1
   \<and> socket_on_added own_broadcast drawn_client = drawn_client"
proof -
  have a1: "truthy (rect_r1 ''id'')" by code_simp
  have a2: "enliven fresh_client rect_r1 \<noteq> None" by code_simp
  have a3: "count_id fresh_client (rect_r1 ''id'') = 0" by code_simp
  have b1: "truthy (own_broadcast ''id'')" by code_simp
  have b2: "enliven drawn_client own_broadcast \<noteq> None" by code_simp
  have b3: "count_id drawn_client (own_broadcast ''id'') = 1" by code_simp
  note a = remote_added_idempotent [of rect_r1 fresh_client, OF a1 a2]
  note b = remote_added_idempotent [of own_broadcast drawn_client, OF b1 b2]
  have a4: "socket_on_added rect_r1 (socket_on_added rect_r1 fresh_client)
              = socket_on_added rect_r1 fresh_client"
    by (rule a [THEN conjunct1])
  have a5: "count_id (socket_on_added rect_r1 (socket_on_added rect_r1 fresh_client))
              (rect_r1 ''id'') = 1"
    by (rule a [THEN conjunct2, THEN conjunct1, rule_format, OF a3])
  have b0: "count_id drawn_client (own_broadcast ''id'') \<noteq> 0"
    by (simp add: b3)
  have b4: "socket_on_added own_broadcast drawn_client = drawn_client"
    by (rule b [THEN conjunct2, THEN conjunct2, rule_format, OF b0])
  show ?thesis
    by (intro conjI a1 a2 a3 a4 a5 b1 b2 b3 b4)
qed

section \<open>Snapshot\<close>

text \<open>
  Claim C6. Applying a SnapshotEvent (\<open>object:sync\<close>) that carries N objects, each with an
  identity and instantiable, over any prior store, leaves a store of exactly N distinct
  objects: in the snapshot's order, each with the properties of its snapshot entry and
  the externally-sourced marker, and nothing of the prior store.
\<close>

theorem snapshot_replaces_store:
  assumes "\<forall>d \<in> set ds. truthy (d ''id'') \<and> enliven st d \<noteq> None"
  shows "map (heap (socket_on_sync ds st)) (objects (socket_on_sync ds st))
           = map (\<lambda>d. \<lparr>props = d(''__skipEmit'' \<mapsto> Bool True), on_canvas = True\<rparr>) ds
       \<and> distinct (objects (socket_on_sync ds st))
       \<and> length (objects (socket_on_sync ds st)) = length ds"
proof -
  let ?objs = "map (\<lambda>d. \<lparr>props = d, on_canvas = False\<rparr>) ds"
  have e: "enlivenObjects st ds = Some ?objs"
    using assms by (simp add: enlivenObjects_all)
  have s: "socket_on_sync ds st = fold sync_add ?objs (canvas_clear st)"
    using e by (simp add: socket_on_sync_def)
  have ids: "\<forall>obj \<in> set ?objs. truthy (props obj ''id'')"
    using assms by simp
  have d0: "distinct (objects (canvas_clear st))" by simp
  have m: "map (heap (socket_on_sync ds st)) (objects (socket_on_sync ds st))
           = map (\<lambda>d. \<lparr>props = d(''__skipEmit'' \<mapsto> Bool True), on_canvas = True\<rparr>) ds"
    using fold_sync_add [OF ids d0] s by (simp add: comp_def)
  have dd: "distinct (objects (socket_on_sync ds st))"
    using fold_sync_add [OF ids d0] s by simp
  have len: "length (objects (socket_on_sync ds st)) = length ds"
    using arg_cong [OF m, of length] by simp
  show ?thesis using m dd len by blast
qed

text \<open>A snapshot of two objects replaces the rectangle the user had drawn.\<close>

theorem snapshot_replaces_store_witness:
  "list_all (\<lambda>d. truthy (d ''id'') \<and> enliven drawn_client d \<noteq> None) [rect_r1, line_l1]
   \<and> length (objects drawn_client) = 1
   \<and> map (heap (socket_on_sync [rect_r1, line_l1] drawn_client))
         (objects (socket_on_sync [rect_r1, line_l1] drawn_client))
       = [\<lparr>props = rect_r1(''__skipEmit'' \<mapsto> Bool True), on_canvas = True\<rparr>,
          \<lparr>props = line_l1(''__skipEmit'' \<mapsto> Bool True), on_canvas = True\<rparr>]
   \<and> length (objects (socket_on_sync [rect_r1, line_l1] drawn_client)) = 2"
proof -
  have l: "list_all (\<lambda>d. truthy (d ''id'') \<and> enliven drawn_client d \<noteq> None) [rect_r1, line_l1]"
    by code_simp
  then have h: "\<forall>d \<in> set [rect_r1, line_l1]. truthy (d ''id'') \<and> enliven drawn_client d \<noteq> None"
    by (simp only: list_all_iff)
  have n: "length (objects drawn_client) = 1" by code_simp
  from snapshot_replaces_store [of "[rect_r1, line_l1]" drawn_client, OF h] l n
  show ?thesis by simp
qed

section \<open>Two remote Modified events for one object\<close>




section \<open>Identities: an invariant of the client\<close>

lemma uuidv4_nonempty: "uuidv4 r \<noteq> []"
  by (simp add: uuidv4_def Let_def byteToHex_def)

lemma toJSON_id: "toJSON [''id''] obj ''id'' = props obj ''id''"
  by (simp add: toJSON_def toObject_def)

lemma inv_emit:
  "identified_inv st \<Longrightarrow> n \<in> set sync_names \<Longrightarrow> truthy (d ''id'') \<Longrightarrow> identified_inv (emit n d st)"
  by (simp add: identified_inv_def identified_def emit_def)

lemma inv_obj_set:
  "identified_inv st \<Longrightarrow> kv ''id'' = None \<or> kv ''id'' = obj_get st r ''id'' \<Longrightarrow> identified_inv (obj_set r kv st)"
  by (auto simp add: identified_inv_def identified_def obj_set_def obj_get_def map_add_def split: option.splits)

lemma inv_emit_modified:
  "identified_inv st \<Longrightarrow> identified_inv (emit ''object:modified'' d st)"
  by (simp add: identified_inv_def identified_def emit_def sync_names_def)

lemma inv_fabric_set:
  assumes "identified_inv st" and "d ''id'' = None \<or> d ''id'' = obj_get st r ''id''"
  shows "identified_inv (fabric_set r d st)"
proof -
  have "props (heap (fabric_set r d st) x) ''id'' = props (heap st x) ''id''" for x
  proof (cases "x = r")
    case True
    have "obj_get (fabric_set r d st) r ''id'' = (props (heap st r) ++ d) ''id''"
      by (rule obj_get_fabric_set_id)
    also have "\<dots> = props (heap st r) ''id''"
      using assms(2) by (auto simp add: map_add_def obj_get_def split: option.splits)
    finally show ?thesis using True by (simp add: obj_get_def)
  next
    case False
    then show ?thesis
      using obj_get_fabric_set_other [of x r d st "''id''"] by (simp add: obj_get_def)
  qed
  then show ?thesis
    using assms(1) by (simp add: identified_inv_def identified_def)
qed

lemma inv_set_on_canvas: "identified_inv st \<Longrightarrow> identified_inv (set_on_canvas r b st)"
  by (simp add: identified_inv_def identified_def set_on_canvas_def)

lemma inv_new_obj: "identified_inv st \<Longrightarrow> identified_inv (snd (new_obj kv st))"
  using objects_lt_fresh_ref [of _ st]
  by (auto simp add: identified_inv_def identified_def new_obj_def Let_def)

lemma fst_new_obj: "fst (new_obj kv st) = fresh_ref st"
  by (simp add: new_obj_def Let_def)

lemma truthy_Str [simp]: "truthy (Some (Str s)) = (s \<noteq> [])"
  by (simp add: truthy_def)

lemma inv_canvas_add: "identified_inv st \<Longrightarrow> identified_inv (canvas_add r st)"
  by (auto simp add: identified_inv_def identified_def canvas_add_def canvas_on_added_def generateId_def
        obj_set_def obj_get_def set_on_canvas_def emit_def toJSON_id uuidv4_nonempty Let_def
        sync_names_def)

lemma inv_canvas_remove: "identified_inv st \<Longrightarrow> identified_inv (canvas_remove r st)"
  by (auto simp add: identified_inv_def identified_def canvas_remove_def canvas_on_removed_def
        obj_get_def set_on_canvas_def emit_def toJSON_id sync_names_def
        dest: notin_set_remove1)

lemma inv_fold:
  "(\<And>x s. identified_inv s \<Longrightarrow> identified_inv (f x s)) \<Longrightarrow> identified_inv st \<Longrightarrow> identified_inv (fold f xs st)"
  by (induction xs arbitrary: st) simp_all

lemma inv_canvas_clear: "identified_inv st \<Longrightarrow> identified_inv (canvas_clear st)"
proof -
  assume a: "identified_inv st"
  then have "identified_inv (st\<lparr>activeObject := None\<rparr>)"
    by (simp add: identified_inv_def)
  then have "identified_inv (fold canvas_remove (objects st) (st\<lparr>activeObject := None\<rparr>))"
    by (intro inv_fold) (auto intro: inv_canvas_remove)
  then show ?thesis
    by (simp add: canvas_clear_def identified_inv_def)
qed

lemma inv_sync_add: "identified_inv st \<Longrightarrow> identified_inv (sync_add obj st)"
proof -
  assume a: "identified_inv st"
  have n: "identified_inv (snd (new_obj (props obj) st))" using a by (rule inv_new_obj)
  have "identified_inv (canvas_add (fresh_ref st)
          (obj_set (fresh_ref st) [''__skipEmit'' \<mapsto> Bool True] (snd (new_obj (props obj) st))))"
    by (intro inv_canvas_add inv_obj_set n) simp
  then show ?thesis
    by (simp add: sync_add_def new_obj_def Let_def)
qed

lemma inv_socket_on_added: "identified_inv st \<Longrightarrow> identified_inv (socket_on_added d st)"
proof -
  assume a: "identified_inv st"
  show ?thesis
  proof (cases "enliven st d")
    case None
    then show ?thesis using a by (simp add: socket_on_added_def)
  next
    case (Some obj)
    show ?thesis
    proof (cases "find_by_id st (props obj ''id'')")
      case None
      then have "socket_on_added d st = sync_add obj st"
        using Some by (simp add: socket_on_added_def sync_add_def)
      then show ?thesis using inv_sync_add [OF a] by simp
    next
      case (Some x)
      then show ?thesis using a \<open>enliven st d = Some obj\<close> by (simp add: socket_on_added_def)
    qed
  qed
qed

lemma inv_socket_on_modified: "identified_inv st \<Longrightarrow> identified_inv (socket_on_modified d st)"
proof (cases "find_by_id st (d ''id'')")
  case None
  assume "identified_inv st"
  then show ?thesis using None by (simp add: socket_on_modified_def)
next
  case (Some x)
  assume a: "identified_inv st"
  have same: "obj_get st x ''id'' = d ''id''"
    using find_by_id_Some [of st "d ''id''" x] Some by simp
  have m: "identified_inv (obj_set x [''__skipEmit'' \<mapsto> Bool True] st)"
    using a by (rule inv_obj_set) simp
  have "identified_inv (fabric_set x d (obj_set x [''__skipEmit'' \<mapsto> Bool True] st))"
    using m by (rule inv_fabric_set) (simp add: same [symmetric] obj_get_def obj_set_def)
  then show ?thesis using Some by (simp add: socket_on_modified_def)
qed

lemma inv_socket_on_removed: "identified_inv st \<Longrightarrow> identified_inv (socket_on_removed d st)"
  by (cases "find_by_id st (d ''id'')")
     (simp_all add: socket_on_removed_def inv_canvas_remove inv_obj_set)

lemma inv_socket_on_sync: "identified_inv st \<Longrightarrow> identified_inv (socket_on_sync ds st)"
  by (cases "enlivenObjects st ds")
     (auto simp add: socket_on_sync_def intro!: inv_fold inv_sync_add inv_canvas_clear)

lemma inv_deliver: "identified_inv st \<Longrightarrow> identified_inv (deliver m st)"
  by (cases m)
     (simp_all add: socket_on_connect_def socket_on_clear_def inv_socket_on_added
        inv_socket_on_modified inv_socket_on_removed inv_socket_on_sync inv_canvas_clear)


lemma inv_set_selectable: "identified_inv st \<Longrightarrow> identified_inv (set_selectable b st)"
  unfolding set_selectable_def
  by (intro inv_fold) (auto intro: inv_obj_set)

lemma inv_cleanup: "identified_inv st \<Longrightarrow> identified_inv (cleanup t st)"
proof -
  assume a: "identified_inv st"
  let ?st1 = "st\<lparr>isDrawingMode := False, selection := False,
                 mouse_listeners := off ''mouse:up'' (off ''mouse:move'' (off ''mouse:down''
                       (mouse_listeners st)))\<rparr>"
  have b: "identified_inv ?st1" using a by (simp add: identified_inv_def)
  show ?thesis
    using b inv_set_selectable [OF b, of False] by (simp add: cleanup_def Let_def)
qed

lemma inv_fields:
  "identified_inv (st\<lparr>startX := a\<rparr>) = identified_inv st"
  "identified_inv (st\<lparr>startY := a\<rparr>) = identified_inv st"
  "identified_inv (st\<lparr>shape := sh\<rparr>) = identified_inv st"
  "identified_inv (st\<lparr>selection := b\<rparr>) = identified_inv st"
  "identified_inv (st\<lparr>isDrawingMode := b\<rparr>) = identified_inv st"
  "identified_inv (st\<lparr>mouse_listeners := ls\<rparr>) = identified_inv st"
  "identified_inv (st\<lparr>backgroundColor := c\<rparr>) = identified_inv st"
  "identified_inv (st\<lparr>tool_cleanup := tc\<rparr>) = identified_inv st"
  "identified_inv (st\<lparr>tool := t\<rparr>) = identified_inv st"
  "identified_inv (st\<lparr>brushColor := c\<rparr>) = identified_inv st"
  "identified_inv (st\<lparr>brushSize := n\<rparr>) = identified_inv st"
  "identified_inv (st\<lparr>activeObject := ao\<rparr>) = identified_inv st"
  "identified_inv (st\<lparr>computed := cf\<rparr>) = identified_inv st"
  by (simp_all add: identified_inv_def)

lemma inv_tool_effect: "identified_inv st \<Longrightarrow> identified_inv (fst (tool_effect st))"
  by (cases "tool st")
     (simp_all add: tool_effect_def Let_def inv_fields inv_cleanup inv_set_selectable
        inv_canvas_clear)

lemma inv_rerender: "identified_inv st \<Longrightarrow> identified_inv (rerender st)"
proof -
  assume a: "identified_inv st"
  have b: "identified_inv (case tool_cleanup st of None \<Rightarrow> st | Some t \<Rightarrow> cleanup t st)"
    using a by (simp add: inv_cleanup split: option.splits)
  show ?thesis
    using inv_tool_effect [OF b]
    by (simp add: rerender_def Let_def split_beta inv_fields)
qed

lemma inv_shape_add:
  "identified_inv st \<Longrightarrow>
   identified_inv (canvas_add r (if on_canvas (heap st r) then canvas_remove r st else st))"
  by (simp add: inv_canvas_add inv_canvas_remove)

lemma inv_rect_handleMouseDown: "identified_inv st \<Longrightarrow> identified_inv (rect_handleMouseDown x y st)"
  using inv_new_obj [of "st\<lparr>startX := x, startY := y\<rparr>"]
  by (simp add: rect_handleMouseDown_def Let_def split_beta inv_fields)

lemma inv_line_handleMouseDown: "identified_inv st \<Longrightarrow> identified_inv (line_handleMouseDown x y st)"
  using inv_new_obj [of "st\<lparr>startX := x, startY := y\<rparr>"]
  by (simp add: line_handleMouseDown_def Let_def split_beta inv_fields)

lemma inv_ellipse_handleMouseDown:
  "identified_inv st \<Longrightarrow> identified_inv (ellipse_handleMouseDown x y st)"
  using inv_new_obj [of "st\<lparr>startX := x, startY := y\<rparr>"]
  by (simp add: ellipse_handleMouseDown_def Let_def split_beta inv_fields)

lemma inv_rect_handleMouseMove: "identified_inv st \<Longrightarrow> identified_inv (rect_handleMouseMove x y st)"
  by (cases "shape st")
     (simp_all add: rect_handleMouseMove_def Let_def inv_canvas_add inv_fabric_set)

lemma inv_line_handleMouseMove: "identified_inv st \<Longrightarrow> identified_inv (line_handleMouseMove x y st)"
  by (cases "shape st")
     (simp_all add: line_handleMouseMove_def Let_def inv_canvas_add inv_fabric_set)

lemma inv_ellipse_handleMouseMove:
  "identified_inv st \<Longrightarrow> identified_inv (ellipse_handleMouseMove x y st)"
  by (cases "shape st")
     (simp_all add: ellipse_handleMouseMove_def Let_def inv_canvas_add inv_fabric_set)

lemma inv_rect_handleMouseUp: "identified_inv st \<Longrightarrow> identified_inv (rect_handleMouseUp st)"
  by (cases "shape st")
     (simp_all add: rect_handleMouseUp_def inv_fields inv_canvas_add inv_canvas_remove)

lemma inv_line_handleMouseUp: "identified_inv st \<Longrightarrow> identified_inv (line_handleMouseUp st)"
  by (cases "shape st")
     (simp_all add: line_handleMouseUp_def inv_fields inv_canvas_add inv_canvas_remove)

lemma inv_ellipse_handleMouseUp: "identified_inv st \<Longrightarrow> identified_inv (ellipse_handleMouseUp st)"
  by (cases "shape st")
     (simp_all add: ellipse_handleMouseUp_def inv_fields inv_canvas_add inv_canvas_remove)

lemma inv_drag_object: "identified_inv st \<Longrightarrow> identified_inv (drag_object r x y st)"
proof (cases "can_grab st r")
  case False
  assume "identified_inv st"
  then show ?thesis using False by (simp add: drag_object_def)
next
  case True
  assume a: "identified_inv st"
  let ?st1 = "obj_set r [''left'' \<mapsto> Num x, ''top'' \<mapsto> Num y] st"
  have m: "r \<in> set (objects st)" using True by (simp add: can_grab_def)
  have b: "identified_inv ?st1" using a by (rule inv_obj_set) simp
  have t: "truthy (obj_get ?st1 r ''id'')"
    using b m by (simp add: identified_inv_def identified_def obj_get_def)
  have "identified_inv (canvas_on_modified (Some r) ?st1)"
    using b t by (simp add: canvas_on_modified_def inv_emit toJSON_id sync_names_def obj_get_def)
  then show ?thesis using True by (simp add: drag_object_def)
qed

lemma inv_drag_selection: "identified_inv st \<Longrightarrow> identified_inv (drag_selection rs x y st)"
proof -
  assume a: "identified_inv st"
  let ?kv = "[''type'' \<mapsto> Str ''ActiveSelection'', ''left'' \<mapsto> Num x, ''top'' \<mapsto> Num y]"
  let ?st1 = "(snd (new_obj ?kv st))\<lparr>activeObject := Some (fresh_ref st)\<rparr>"
  have b: "identified_inv ?st1"
    using inv_new_obj [OF a, of ?kv] by (simp add: inv_fields)
  have "identified_inv (canvas_on_modified (Some (fresh_ref st)) ?st1)"
    using b by (simp add: canvas_on_modified_def inv_emit_modified)
  then show ?thesis
    using a by (simp add: drag_selection_def new_obj_def Let_def)
qed

lemma inv_brush_stroke: "identified_inv st \<Longrightarrow> identified_inv (brush_stroke path st)"
  using inv_new_obj [of st]
  by (simp add: brush_stroke_def Let_def split_beta inv_canvas_add)

lemma inv_step: "identified_inv st \<Longrightarrow> identified_inv (step i st)"
proof (cases i)
  case (Receive m)
  assume "identified_inv st"
  then show ?thesis using Receive by (simp add: inv_deliver)
next
  case (SetTool t)
  assume "identified_inv st"
  then show ?thesis using SetTool by (simp add: setTool_def inv_rerender inv_fields)
next
  case (SetBrushColor c)
  assume "identified_inv st"
  then show ?thesis using SetBrushColor by (simp add: setBrushColor_def inv_rerender inv_fields)
next
  case (SetBrushSize n)
  assume "identified_inv st"
  then show ?thesis using SetBrushSize by (simp add: setBrushSize_def inv_rerender inv_fields)
next
  case (MouseDown x y)
  assume "identified_inv st"
  then show ?thesis using MouseDown
    by (cases "tool st")
       (simp_all add: mouse_down_def inv_rect_handleMouseDown inv_line_handleMouseDown
          inv_ellipse_handleMouseDown)
next
  case (MouseMove x y)
  assume "identified_inv st"
  then show ?thesis using MouseMove
    by (cases "tool st")
       (simp_all add: mouse_move_def inv_rect_handleMouseMove inv_line_handleMouseMove
          inv_ellipse_handleMouseMove)
next
  case MouseUp
  assume "identified_inv st"
  then show ?thesis using MouseUp
    by (cases "tool st")
       (simp_all add: mouse_up_def inv_rect_handleMouseUp inv_line_handleMouseUp
          inv_ellipse_handleMouseUp)
next
  case (KeyDown key)
  assume "identified_inv st"
  then show ?thesis using KeyDown
    by (simp add: handleKeyDown_def inv_canvas_remove split: option.splits)
next
  case (SelectObject r)
  assume "identified_inv st"
  then show ?thesis using SelectObject by (simp add: select_object_def inv_fields)
next
  case (DragObject r x y)
  assume "identified_inv st"
  then show ?thesis using DragObject by (simp add: inv_drag_object)
next
  case (DragSelection rs x y)
  assume "identified_inv st"
  then show ?thesis using DragSelection by (simp add: inv_drag_selection)
next
  case (BrushStroke path)
  assume "identified_inv st"
  then show ?thesis using BrushStroke by (simp add: inv_brush_stroke)
qed

lemma inv_run: "identified_inv st \<Longrightarrow> identified_inv (run ins st)"
  unfolding run_def by (induction ins arbitrary: st) (simp_all add: inv_step)

lemma inv_mounted: "identified_inv (mounted reg rnd)"
  by (simp add: mounted_def mount_def tool_effect_def init_effect_def init_def unmounted_def
        identified_inv_def identified_def)
lemma truthy_present: "truthy v \<Longrightarrow> v \<noteq> None \<and> v \<noteq> Some (Str [])"
  by (auto simp add: truthy_def split: option.splits jsval.splits)

lemma canvas_on_added_identifies:
  "truthy (obj_get (canvas_on_added (Some t) st) t ''id'')"
  by (simp add: canvas_on_added_def generateId_def obj_set_def obj_get_def emit_def
        uuidv4_nonempty Let_def)

lemma canvas_on_added_keeps_identity:
  "truthy (obj_get st t ''id'') \<Longrightarrow>
   obj_get (canvas_on_added (Some t) st) t ''id'' = obj_get st t ''id''"
  by (simp add: canvas_on_added_def obj_get_def emit_def)

lemma canvas_on_added_emits:
  "\<not> truthy (obj_get st t ''__skipEmit'') \<Longrightarrow>
   emitted (canvas_on_added (Some t) st)
     = emitted st @ [(''object:added'', toJSON [''id''] (heap (canvas_on_added (Some t) st) t))]"
  by (simp add: canvas_on_added_def generateId_def obj_set_def obj_get_def emit_def Let_def)

section \<open>Identity before the first event\<close>

text \<open>
  What holds: the \<open>object:added\<close> listener gives its target an identity before it emits
  (lemmas above), every object of the store has an identity, and every \<open>object:added\<close> and
  \<open>object:removed\<close> event ever sent carries one, whatever the inputs and whatever the
  setters compute.
\<close>

lemma added_and_removed_events_carry_identity:
  assumes "e \<in> set (emitted (run ins ((mounted reg rnd)\<lparr>computed := cf\<rparr>)))"
    and "fst e \<noteq> ''object:modified''"
  shows "snd e ''id'' \<noteq> None \<and> snd e ''id'' \<noteq> Some (Str [])"
proof -
  have "identified_inv ((mounted reg rnd)\<lparr>computed := cf\<rparr>)"
    by (simp add: inv_fields inv_mounted)
  then have "identified_inv (run ins ((mounted reg rnd)\<lparr>computed := cf\<rparr>))"
    by (rule inv_run)
  then have "truthy (snd e ''id'')"
    using assms by (auto simp add: identified_inv_def identified_def)
  then show ?thesis by (rule truthy_present)
qed

text \<open>
  Claim C9 at a concrete input. The \<open>object:modified\<close> listener serialises whatever target
  fabric hands it. The user draws two rectangles (objects 1 and 2, each given an identity
  when it was added), goes back to the select tool, picks both and drags the selection:
  fabric fires \<open>object:modified\<close> with the ActiveSelection as target, an object that was
  never added to the canvas and has no identity, and the client sends an
  \<open>object:modified\<close> event without \<open>id\<close>, where the claim says that every transmitted event
  carries a non-empty identity.
\<close>

theorem group_drag_sends_event_without_identity:
  "objects two_rect_client = [1, 2]
   \<and> truthy (obj_get two_rect_client 1 ''id'') \<and> truthy (obj_get two_rect_client 2 ''id'')
   \<and> objects group_drag_client = [1, 2]
   \<and> map fst (emitted group_drag_client)
       = map fst (emitted two_rect_client) @ [''object:modified'']
   \<and> snd (last (emitted group_drag_client)) ''type'' = Some (Str ''ActiveSelection'')
   \<and> snd (last (emitted group_drag_client)) ''id'' = None"
proof -
  have a: "objects two_rect_client = [1, 2]" by code_simp
  have b: "truthy (obj_get two_rect_client 1 ''id'')" by code_simp
  have c: "truthy (obj_get two_rect_client 2 ''id'')" by code_simp
  have g: "objects group_drag_client = [1, 2]" by code_simp
  have h: "map fst (emitted group_drag_client)
             = map fst (emitted two_rect_client) @ [''object:modified'']" by code_simp
  have i: "snd (last (emitted group_drag_client)) ''type'' = Some (Str ''ActiveSelection'')"
    by code_simp
  have j: "snd (last (emitted group_drag_client)) ''id'' = None" by code_simp
  show ?thesis by (intro conjI a b c g h i j)
qed

section \<open>Local modification after a remote Modified event\<close>

text \<open>
  The marker \<open>__skipEmit\<close> is set by the remote apply engine and never cleared, and
  \<open>obj.set\<close> fires no canvas event, so the marker set by \<open>socket.on('object:modified')\<close>
  only acts on what the user does later: once an object has received a remote Modified
  event (that does not itself carry \<open>__skipEmit\<close>), dragging it sends nothing.
\<close>

lemma drag_after_remote_modified_is_silent:
  assumes "find_by_id st (d ''id'') = Some x" and "d ''__skipEmit'' = None"
  shows "emitted (drag_object x a b (socket_on_modified d st)) = emitted st"
proof -
  let ?m = "obj_set x [''__skipEmit'' \<mapsto> Bool True] st"
  let ?st1 = "fabric_set x d ?m"
  have s: "socket_on_modified d st = ?st1"
    using assms(1) by (rule socket_on_modified_found)
  have "obj_get ?st1 x ''__skipEmit'' = (props (heap ?m x) ++ d) ''__skipEmit''"
    by (rule obj_get_fabric_set_marker)
  also have "\<dots> = Some (Bool True)"
    using assms(2) by (simp add: obj_set_def map_add_def)
  finally have marked: "props (heap ?st1 x) ''__skipEmit'' = Some (Bool True)"
    by (simp add: obj_get_def)
  have e: "emitted ?st1 = emitted st"
    by (simp add: obj_set_def)
  show ?thesis
    unfolding s using marked e
    by (simp add: drag_object_def canvas_on_modified_def obj_set_def obj_get_def
          map_add_def truthy_def)
qed

text \<open>
  Claim C1 at a concrete input. The user draws a rectangle (object 1, without marker)
  and goes back to the select tool; dragging the rectangle sends one \<open>object:modified\<close>.
  A peer's Modified event for it arrives and is applied. The user then drags the
  rectangle: nothing is sent, where the claim asks for exactly one \<open>object:modified\<close>.
\<close>

theorem local_modification_after_remote_modified_is_silent:
  "find_by_id selecting_client (remote_move ''id'') = Some 1
   \<and> \<not> truthy (obj_get selecting_client 1 ''__skipEmit'')
   \<and> can_grab selecting_client 1
   \<and> map fst (emitted (drag_object 1 70 70 selecting_client))
       = map fst (emitted selecting_client) @ [''object:modified'']
   \<and> obj_get (socket_on_modified remote_move selecting_client) 1 ''left'' = Some (Num 40)
   \<and> truthy (obj_get (socket_on_modified remote_move selecting_client) 1 ''__skipEmit'')
   \<and> can_grab (socket_on_modified remote_move selecting_client) 1
   \<and> emitted (drag_object 1 70 70 (socket_on_modified remote_move selecting_client))
       = emitted selecting_client"
proof -
  have a: "find_by_id selecting_client (remote_move ''id'') = Some 1" by code_simp
  have b: "\<not> truthy (obj_get selecting_client 1 ''__skipEmit'')" by code_simp
  have g: "can_grab selecting_client 1" by code_simp
  have c: "map fst (emitted (drag_object 1 70 70 selecting_client))
             = map fst (emitted selecting_client) @ [''object:modified'']" by code_simp
  have d: "obj_get (socket_on_modified remote_move selecting_client) 1 ''left'' = Some (Num 40)"
    by code_simp
  have e: "truthy (obj_get (socket_on_modified remote_move selecting_client) 1 ''__skipEmit'')"
    by code_simp
  have h: "can_grab (socket_on_modified remote_move selecting_client) 1" by code_simp
  have n: "remote_move ''__skipEmit'' = None" by code_simp
  have f: "emitted (drag_object 1 70 70 (socket_on_modified remote_move selecting_client))
             = emitted selecting_client"
    by (rule drag_after_remote_modified_is_silent [of selecting_client remote_move 1, OF a n])
  show ?thesis by (intro conjI a b g c d e h f)
qed

section \<open>The clear tool\<close>

text \<open>
  No event named \<open>canvas:clear\<close> is ever sent: the client listens for it and never emits
  it.
\<close>

lemma clear_event_is_never_sent:
  "(''canvas:clear'', d) \<notin> set (emitted (run ins (mounted reg rnd)))"
proof -
  have "identified_inv (run ins (mounted reg rnd))"
    by (rule inv_run [OF inv_mounted])
  then show ?thesis
    by (auto simp add: identified_inv_def identified_def sync_names_def)
qed

lemma clear_event_is_never_sent_whatever_is_computed:
  "(''canvas:clear'', d) \<notin> set (emitted (run ins ((mounted reg rnd)\<lparr>computed := cf\<rparr>)))"
proof -
  have "identified_inv ((mounted reg rnd)\<lparr>computed := cf\<rparr>)"
    by (simp add: inv_fields inv_mounted)
  then have "identified_inv (run ins ((mounted reg rnd)\<lparr>computed := cf\<rparr>))"
    by (rule inv_run)
  then show ?thesis
    by (auto simp add: identified_inv_def identified_def sync_names_def)
qed

text \<open>
  Claim C2 at a concrete input. The user selects the clear tool. On the client that
  drew a rectangle, the store is emptied and the only event sent is the \<open>object:removed\<close>
  of the rectangle; on the client whose two objects came from a snapshot, the store is
  emptied and nothing is sent. In neither case is \<open>canvas:clear\<close> sent, where the claim
  asks for it.
\<close>

theorem clear_tool_sends_no_clear_event:
  "objects drawn_client = [1] \<and> objects (setTool Clear drawn_client) = []
   \<and> map fst (emitted drawn_client) = [''object:added'', ''object:removed'', ''object:added'']
   \<and> map fst (emitted (setTool Clear drawn_client))
       = [''object:added'', ''object:removed'', ''object:added'', ''object:removed'']
   \<and> length (objects synced_client) = 2 \<and> objects (setTool Clear synced_client) = []
   \<and> map fst (emitted (setTool Clear synced_client)) = []"
proof -
  have a: "objects drawn_client = [1]" by code_simp
  have b: "objects (setTool Clear drawn_client) = []" by code_simp
  have c: "map fst (emitted drawn_client)
             = [''object:added'', ''object:removed'', ''object:added'']" by code_simp
  have d: "map fst (emitted (setTool Clear drawn_client))
             = [''object:added'', ''object:removed'', ''object:added'', ''object:removed'']"
    by code_simp
  have e: "length (objects synced_client) = 2" by code_simp
  have f: "objects (setTool Clear synced_client) = []" by code_simp
  have g: "map fst (emitted (setTool Clear synced_client)) = []" by code_simp
  show ?thesis by (intro conjI a b c d e f g)
qed

section \<open>Teardown\<close>

text \<open>The initialisation effect never hands a cleanup to React.\<close>

lemma init_effect_returns_nothing: "snd (init_effect st) = None"
  by (simp add: init_effect_def split_beta)

lemma mount_returns_nothing: "snd (mount st) = None"
  by (simp add: mount_def split_beta init_effect_returns_nothing)

text \<open>
  Claim C4 at a concrete input: the component is mounted and then unmounted. The
  effect returned no cleanup, so unmounting leaves the connection open and all six socket
  listeners and both window listeners registered. The function that \<open>init\<close> returns and
  nobody calls would close the connection and release the window listeners, and would
  still leave the \<open>connect\<close> and \<open>canvas:clear\<close> socket listeners registered.
\<close>

theorem unmount_releases_nothing:
  "snd (mount (unmounted demo_registry demo_rng)) = None
   \<and> fst (mount (unmounted demo_registry demo_rng)) = fresh_client
   \<and> connected (unmount None fresh_client)
   \<and> socket_listeners (unmount None fresh_client)
       = [''connect'', ''object:added'', ''object:modified'', ''object:removed'',
          ''canvas:clear'', ''object:sync'']
   \<and> window_listeners (unmount None fresh_client) = [''resize'', ''keydown'']
   \<and> \<not> connected (init_cleanup fresh_client)
   \<and> window_listeners (init_cleanup fresh_client) = []
   \<and> socket_listeners (init_cleanup fresh_client) = [''connect'', ''canvas:clear'']"
proof -
  have a: "snd (mount (unmounted demo_registry demo_rng)) = None"
    by (rule mount_returns_nothing)
  have b: "fst (mount (unmounted demo_registry demo_rng)) = fresh_client"
    by (simp only: fresh_client_def mounted_def)
  have c: "connected (unmount None fresh_client)" by code_simp
  have d: "socket_listeners (unmount None fresh_client)
             = [''connect'', ''object:added'', ''object:modified'', ''object:removed'',
                ''canvas:clear'', ''object:sync'']" by code_simp
  have e: "window_listeners (unmount None fresh_client) = [''resize'', ''keydown'']"
    by code_simp
  have f: "\<not> connected (init_cleanup fresh_client)" by code_simp
  have g: "window_listeners (init_cleanup fresh_client) = []" by code_simp
  have h: "socket_listeners (init_cleanup fresh_client) = [''connect'', ''canvas:clear'']"
    by code_simp
  show ?thesis by (intro conjI a b c d e f g h)
qed

section \<open>Degenerate shapes\<close>

text \<open>
  Claim C10 at concrete inputs. The first \<open>mouse:move\<close> of a gesture adds the shape to
  the canvas (which sends \<open>object:added\<close>), and \<open>handleMouseUp\<close> does nothing when the
  shape is degenerate, so the shape stays: a rectangle dragged vertically (width 0), a
  line dragged and brought back to its start point, and an ellipse dragged horizontally
  (vertical radius 0) are each in the store after the mouse button is released, and an
  \<open>object:added\<close> event was sent for each, where the claim says that no object is committed
  and no event sent. Only a click without movement commits nothing.
\<close>

theorem degenerate_shapes_are_committed:
  "objects degenerate_rect_client = [1]
   \<and> obj_get degenerate_rect_client 1 ''width'' = Some (Num 0)
   \<and> map fst (emitted degenerate_rect_client) = [''object:added'']
   \<and> objects degenerate_line_client = [1]
   \<and> obj_get degenerate_line_client 1 ''x2'' = obj_get degenerate_line_client 1 ''x1''
   \<and> obj_get degenerate_line_client 1 ''y2'' = obj_get degenerate_line_client 1 ''y1''
   \<and> map fst (emitted degenerate_line_client) = [''object:added'']
   \<and> objects degenerate_ellipse_client = [1]
   \<and> obj_get degenerate_ellipse_client 1 ''ry'' = Some (Num 0)
   \<and> map fst (emitted degenerate_ellipse_client) = [''object:added'']
   \<and> objects (run [SetTool Rectangle, MouseDown 10 10, MouseUp] fresh_client) = []"
proof -
  have a: "objects degenerate_rect_client = [1]" by code_simp
  have b: "obj_get degenerate_rect_client 1 ''width'' = Some (Num 0)" by code_simp
  have c: "map fst (emitted degenerate_rect_client) = [''object:added'']" by code_simp
  have d: "objects degenerate_line_client = [1]" by code_simp
  have e: "obj_get degenerate_line_client 1 ''x2'' = obj_get degenerate_line_client 1 ''x1''"
    by code_simp
  have f: "obj_get degenerate_line_client 1 ''y2'' = obj_get degenerate_line_client 1 ''y1''"
    by code_simp
  have g: "map fst (emitted degenerate_line_client) = [''object:added'']" by code_simp
  have h: "objects degenerate_ellipse_client = [1]" by code_simp
  have i: "obj_get degenerate_ellipse_client 1 ''ry'' = Some (Num 0)" by code_simp
  have j: "map fst (emitted degenerate_ellipse_client) = [''object:added'']" by code_simp
  have k: "objects (run [SetTool Rectangle, MouseDown 10 10, MouseUp] fresh_client) = []"
    by code_simp
  show ?thesis by (intro conjI a b c d e f g h i j k)
qed

end
